theory Spec2Isabelle
  imports Main "HOL-Library.Word" "HOL-Library.Sublist"
begin

unbundle bit_operations_syntax

section \<open>Go values\<close>

text \<open>
  A Go \<open>string\<close> is a sequence of bytes; it is modelled as \<^typ>\<open>string\<close>, a list of
  8-bit characters.  A \<open>[]byte\<close> on which the program computes bitwise is a list of
  \<^typ>\<open>8 word\<close>.  \<open>int64\<close> is \<^typ>\<open>64 word\<close>, read with \<^const>\<open>sint\<close>.
\<close>

type_synonym byte = "8 word"
type_synonym int64 = "64 word"

section \<open>Package strings\<close>

text \<open>
  \<open>strings.Split(s, sep)\<close> for a separator of one byte, the only kind main.go passes
  (\<open>","\<close> and \<open>";"\<close>).  The result always has at least one element; \<open>Split("", ",")\<close>
  is the one-element slice holding the empty string.
\<close>

fun strings_Split :: "string \<Rightarrow> char \<Rightarrow> string list" where
  "strings_Split [] sep = [[]]"
| "strings_Split (c # cs) sep =
     (if c = sep then [] # strings_Split cs sep
      else (case strings_Split cs sep of
              [] \<Rightarrow> [[c]]
            | p # ps \<Rightarrow> (c # p) # ps))"

text \<open>\<open>strings.Join(parts, sep)\<close>, the inverse of the split.\<close>

fun strings_Join :: "string list \<Rightarrow> char \<Rightarrow> string" where
  "strings_Join [] sep = []"
| "strings_Join [p] sep = p"
| "strings_Join (p # q # ps) sep = p @ sep # strings_Join (q # ps) sep"

text \<open>
  \<open>unicode.IsSpace\<close> holds of the runes with the White_Space property.  On the UTF-8
  bytes of a Go string these are the six ASCII bytes of \<open>asciiSpace\<close> and the
  encodings listed in \<open>wideSpace\<close>: U+0085, U+00A0, U+1680, U+2000 to U+200A, U+2028,
  U+2029, U+202F, U+205F and U+3000.
\<close>

definition asciiSpace :: "string" where
  "asciiSpace = [CHR 0x09, CHR 0x0A, CHR 0x0B, CHR 0x0C, CHR 0x0D, CHR 0x20]"

definition wideSpace :: "string list" where
  "wideSpace =
     [[CHR 0xC2, CHR 0x85], [CHR 0xC2, CHR 0xA0], [CHR 0xE1, CHR 0x9A, CHR 0x80]] @
     map (\<lambda>b. [CHR 0xE2, CHR 0x80, b])
       [CHR 0x80, CHR 0x81, CHR 0x82, CHR 0x83, CHR 0x84, CHR 0x85, CHR 0x86, CHR 0x87,
        CHR 0x88, CHR 0x89, CHR 0x8A, CHR 0xA8, CHR 0xA9, CHR 0xAF] @
     [[CHR 0xE2, CHR 0x81, CHR 0x9F], [CHR 0xE3, CHR 0x80, CHR 0x80]]"

definition spaceRunes :: "string list" where
  "spaceRunes = map (\<lambda>c. [c]) asciiSpace @ wideSpace"

text \<open>
  \<open>leadingSpace ps s\<close> is the number of bytes of the first rune of \<open>s\<close> when that rune
  is one of the encodings \<open>ps\<close>, and 0 otherwise.
\<close>

definition leadingSpace :: "string list \<Rightarrow> string \<Rightarrow> nat" where
  "leadingSpace ps s =
     (case find (\<lambda>p. p \<noteq> [] \<and> prefix p s) ps of None \<Rightarrow> 0 | Some p \<Rightarrow> length p)"

lemma leadingSpace_le: "leadingSpace ps s \<le> length s"
  by (auto simp: leadingSpace_def find_Some_iff prefix_def split: option.splits)

lemma leadingSpace_pos: "leadingSpace ps s \<noteq> 0 \<Longrightarrow> s \<noteq> []"
  using leadingSpace_le [of ps s] by auto

function trimLeft :: "string list \<Rightarrow> string \<Rightarrow> string" where
  "trimLeft ps s =
     (if leadingSpace ps s = 0 then s else trimLeft ps (drop (leadingSpace ps s) s))"
  by pat_completeness auto
termination
proof (relation "measure (\<lambda>(ps, s). length s)")
  show "wf (measure (\<lambda>(ps, s). length s))" by simp
next
  fix ps :: "string list" and s :: string
  assume "leadingSpace ps s \<noteq> 0"
  then show "((ps, drop (leadingSpace ps s) s), (ps, s)) \<in> measure (\<lambda>(ps, s). length s)"
    using leadingSpace_pos [of ps s] by auto
qed

declare trimLeft.simps [simp del]

text \<open>
  \<open>strings.TrimSpace(s)\<close>: \<open>s\<close> without its leading and trailing white space, as
  \<open>unicode.IsSpace\<close> defines it.  The trailing runes are read from the end, which on
  the reversed string is reading the reversed encodings from the front.
\<close>

definition strings_TrimSpace :: "string \<Rightarrow> string" where
  "strings_TrimSpace s =
     rev (trimLeft (map rev spaceRunes) (rev (trimLeft spaceRunes s)))"

section \<open>Package net\<close>

definition IndexByte :: "string \<Rightarrow> char \<Rightarrow> nat option" where
  "IndexByte s c = (if c \<in> set s then Some (length (takeWhile (\<lambda>x. x \<noteq> c) s)) else None)"

definition LastIndexByte :: "string \<Rightarrow> char \<Rightarrow> nat option" where
  "LastIndexByte s c =
     (if c \<in> set s then Some (length s - 1 - length (takeWhile (\<lambda>x. x \<noteq> c) (rev s)))
      else None)"

datatype AddrError = AddrError (Err: string) (Addr: string)

definition quoted :: "char \<Rightarrow> string" where
  "quoted c = [CHR 0x27, c, CHR 0x27]"

text \<open>
  \<open>net.SplitHostPort(hostport)\<close>: the port starts after the last colon; a host in
  square brackets may itself hold colons.  \<open>Inl\<close> is the error return.
\<close>

definition net_SplitHostPort :: "string \<Rightarrow> AddrError + (string \<times> string)" where
  "net_SplitHostPort hostport =
     (case LastIndexByte hostport (CHR '':'') of
        None \<Rightarrow> Inl (AddrError ''missing port in address'' hostport)
      | Some i \<Rightarrow>
          let bracket =
            (if hd hostport = CHR ''[''
             then (case IndexByte hostport (CHR '']'') of
                     None \<Rightarrow> Inl (AddrError (''missing '' @ quoted (CHR '']'') @ '' in address'') hostport)
                   | Some e \<Rightarrow>
                       if e + 1 = length hostport
                       then Inl (AddrError ''missing port in address'' hostport)
                       else if e + 1 = i
                       then Inr (take (e - 1) (drop 1 hostport), 1, e + 1)
                       else if hostport ! (e + 1) = CHR '':''
                       then Inl (AddrError ''too many colons in address'' hostport)
                       else Inl (AddrError ''missing port in address'' hostport))
             else if IndexByte (take i hostport) (CHR '':'') \<noteq> None
             then Inl (AddrError ''too many colons in address'' hostport)
             else Inr (take i hostport, 0, 0))
          in (case bracket of
                Inl e \<Rightarrow> Inl e
              | Inr (host, j, k) \<Rightarrow>
                  if IndexByte (drop j hostport) (CHR ''['') \<noteq> None
                  then Inl (AddrError (''unexpected '' @ quoted (CHR ''['') @ '' in address'') hostport)
                  else if IndexByte (drop k hostport) (CHR '']'') \<noteq> None
                  then Inl (AddrError (''unexpected '' @ quoted (CHR '']'') @ '' in address'') hostport)
                  else Inr (host, drop (i + 1) hostport)))"

section \<open>Package net/http: the request\<close>

text \<open>
  \<open>http.Header\<close> maps a header name to the values received under it, in order; an
  absent header has no entry.  net/http canonicalises the name both when it stores a
  header and in \<open>Get\<close>, so the model is keyed by the names as main.go spells them.
  \<open>Header.Get\<close> returns the first value, or the empty string.
\<close>

type_synonym Header = "string \<rightharpoonup> string list"

definition Header_Get :: "Header \<Rightarrow> string \<Rightarrow> string" where
  "Header_Get h key = (case h key of None \<Rightarrow> [] | Some [] \<Rightarrow> [] | Some (v # vs) \<Rightarrow> v)"

text \<open>
  \<open>url.Values\<close>, the parsed query string (\<open>r.URL.Query()\<close>), has the same shape and the
  same \<open>Get\<close>.
\<close>

type_synonym Values = "string \<rightharpoonup> string list"

definition Values_Get :: "Values \<Rightarrow> string \<Rightarrow> string" where
  "Values_Get v key = (case v key of None \<Rightarrow> [] | Some [] \<Rightarrow> [] | Some (x # xs) \<Rightarrow> x)"

text \<open>
  The fields of \<open>*http.Request\<close> that main.go reads.  \<open>r_Cookies\<close> is what \<open>r.Cookies()\<close>
  returns: the name and value of every cookie the request carries, in order.
  \<open>r_Vars\<close> is the map \<open>mux.Vars(r)\<close> returns, \<open>None\<close> for the nil map.
\<close>

type_synonym addr = nat

record Request =
  r_Header :: Header
  r_Cookies :: "(string \<times> string) list"
  r_Host :: string
  r_URL_Path :: string
  r_URL_Query :: Values
  r_RemoteAddr :: string
  r_Vars :: "addr option"

section \<open>The attribute extractors of main.go\<close>

definition getClientIP :: "Request \<Rightarrow> string" where
  "getClientIP r =
     (let forwarded = Header_Get (r_Header r) ''X-Forwarded-For'' in
      if forwarded \<noteq> []
      then (let ips = strings_Split forwarded (CHR '','') in strings_TrimSpace (ips ! 0))
      else
        let realIP = Header_Get (r_Header r) ''X-Real-IP'' in
        if realIP \<noteq> [] then realIP
        else (case net_SplitHostPort (r_RemoteAddr r) of
                Inl err \<Rightarrow> r_RemoteAddr r
              | Inr (ip, port) \<Rightarrow> ip))"

text \<open>
  \<open>time.Time\<close> is modelled by the instant it denotes, in nanoseconds since the Unix
  epoch.  \<open>Unix\<close> and \<open>UnixNano\<close> return \<open>int64\<close>; \<open>Unix\<close> is the whole seconds (rounded
  down), and the product with 1000 in \<open>getDecay\<close> is an \<open>int64\<close> product.  The
  reading of the clock, \<open>time.Now()\<close>, is an argument.
\<close>

type_synonym Time = int

definition Minute :: int where
  "Minute = 60 * 1000000000"

definition Time_Add :: "Time \<Rightarrow> int \<Rightarrow> Time" where
  "Time_Add t d = t + d"

definition Time_Unix :: "Time \<Rightarrow> int64" where
  "Time_Unix t = word_of_int (t div 1000000000)"

definition Time_UnixNano :: "Time \<Rightarrow> int64" where
  "Time_UnixNano t = word_of_int t"

definition getDecay :: "string \<Rightarrow> Time \<Rightarrow> int64" where
  "getDecay decay now =
     (if decay = [] then Time_Unix (Time_Add now (5 * Minute)) * 1000 else 0)"

text \<open>
  The body of the loop of \<open>parseLanguage\<close>, on the slice built so far.  The result of
  \<open>parseLanguage\<close> is the list of its elements: the nil slice the loop leaves when it
  appends nothing and the empty slice returned for the empty header are both the empty
  list.
\<close>

definition parseLanguage_step :: "string list \<Rightarrow> string \<Rightarrow> string list" where
  "parseLanguage_step languages part =
     (let lang = strings_Split part (CHR '';'') ! 0;
          lang = strings_TrimSpace lang
      in if lang \<noteq> [] then languages @ [lang] else languages)"

definition parseLanguage :: "string \<Rightarrow> string list" where
  "parseLanguage acceptLanguage =
     (if acceptLanguage = [] then []
      else
        let parts = strings_Split acceptLanguage (CHR '','') in
        foldl parseLanguage_step [] parts)"

section \<open>Package regexp\<close>

text \<open>
  The six patterns of \<open>parseUserAgent\<close> are built from literal bytes, one group
  \<open>(\S+)\<close> and, in one of them, \<open>.*?\<close>.  A compiled pattern is the list of its
  nodes.  \<open>Plus\<close> is the greedy \<open>x+\<close>, \<open>Star\<close> the greedy \<open>x*\<close> that follows its first
  iteration, \<open>StarLazy\<close> is \<open>x*?\<close>; \<open>Open\<close> and \<open>Close\<close> are the parentheses of the
  group.

  The classes: \<open>NotSpace\<close> is \<open>\S\<close>, every rune but tab, newline, form feed, carriage
  return and space; \<open>AnyChar\<close> is \<open>.\<close>, every rune but newline.  Both contain every
  byte above 127 and every literal of the patterns is ASCII, so matching the bytes
  of the string gives the match on its runes.
\<close>

datatype cls = NotSpace | AnyChar

datatype node = Lit char | Plus cls | Star cls | StarLazy cls | Open | Close

type_synonym Regexp = "node list"

fun member_cls :: "cls \<Rightarrow> char \<Rightarrow> bool" where
  "member_cls NotSpace c = (c \<notin> set [CHR 0x09, CHR 0x0A, CHR 0x0C, CHR 0x0D, CHR 0x20])"
| "member_cls AnyChar c = (c \<noteq> CHR 0x0A)"

text \<open>
  \<open>run re s (gs, ge)\<close> matches \<open>re\<close> at the front of \<open>s\<close> the way a backtracking
  matcher does, which is the match package regexp returns (leftmost-first): a greedy
  repetition tries one more iteration before it tries the rest of the pattern, a lazy
  one the other way round.  The result is the input left after the match with the
  input left at the opening and at the closing parenthesis of the group.
\<close>

fun run :: "Regexp \<Rightarrow> string \<Rightarrow> string \<times> string \<Rightarrow> (string \<times> string \<times> string) option" where
  "run [] s g = Some (s, g)"
| "run (Lit c # ns) [] g = None"
| "run (Lit c # ns) (x # xs) g = (if x = c then run ns xs g else None)"
| "run (Open # ns) s g = run ns s (s, snd g)"
| "run (Close # ns) s g = run ns s (fst g, s)"
| "run (Plus k # ns) [] g = None"
| "run (Plus k # ns) (x # xs) g = (if member_cls k x then run (Star k # ns) xs g else None)"
| "run (Star k # ns) [] g = run ns [] g"
| "run (Star k # ns) (x # xs) g =
     (if member_cls k x
      then (case run (Star k # ns) xs g of
              Some m \<Rightarrow> Some m
            | None \<Rightarrow> run ns (x # xs) g)
      else run ns (x # xs) g)"
| "run (StarLazy k # ns) [] g = run ns [] g"
| "run (StarLazy k # ns) (x # xs) g =
     (case run ns (x # xs) g of
        Some m \<Rightarrow> Some m
      | None \<Rightarrow> if member_cls k x then run (StarLazy k # ns) xs g else None)"

text \<open>The match that starts at the front of \<open>s\<close>: the whole match and the group.\<close>

definition match_at :: "Regexp \<Rightarrow> string \<Rightarrow> string list option" where
  "match_at re s =
     (case run re s (s, s) of
        None \<Rightarrow> None
      | Some (rest, gs, ge) \<Rightarrow>
          Some [take (length s - length rest) s, take (length gs - length ge) gs])"

text \<open>
  \<open>re.FindStringSubmatch(s)\<close>: the leftmost match, as the slice of the whole match and
  the group; the nil slice, here the empty list, when there is none.
\<close>

fun FindStringSubmatch :: "Regexp \<Rightarrow> string \<Rightarrow> string list" where
  "FindStringSubmatch re [] = (case match_at re [] of Some m \<Rightarrow> m | None \<Rightarrow> [])"
| "FindStringSubmatch re (x # xs) =
     (case match_at re (x # xs) of Some m \<Rightarrow> m | None \<Rightarrow> FindStringSubmatch re xs)"

definition lits :: "string \<Rightarrow> Regexp" where
  "lits s = map Lit s"

section \<open>parseUserAgent\<close>

record BrowserInfo =
  Browser :: string
  Version :: string

text \<open>
  The table \<open>browserTests\<close>, in the order of the source:
  \<^verbatim>\<open>Edg/(\S+)\<close>, \<^verbatim>\<open>Firefox/(\S+)\<close>, \<^verbatim>\<open>Version/(\S+).*?Safari/\<close>,
  \<^verbatim>\<open>Chrome/(\S+)\<close>, \<^verbatim>\<open>Opera/(\S+)\<close>, \<^verbatim>\<open>MSIE (\S+);\<close>.
\<close>

definition browserTests :: "(string \<times> Regexp) list" where
  "browserTests =
     [(''Edge'', lits ''Edg/'' @ [Open, Plus NotSpace, Close]),
      (''Firefox'', lits ''Firefox/'' @ [Open, Plus NotSpace, Close]),
      (''Safari'', lits ''Version/'' @ [Open, Plus NotSpace, Close, StarLazy AnyChar] @ lits ''Safari/''),
      (''Chrome'', lits ''Chrome/'' @ [Open, Plus NotSpace, Close]),
      (''Opera'', lits ''Opera/'' @ [Open, Plus NotSpace, Close]),
      (''MSIE'', lits ''MSIE '' @ [Open, Plus NotSpace, Close, Lit (CHR '';'')])]"

text \<open>The loop over the table: the first test whose pattern matches returns.\<close>

fun firstBrowser :: "(string \<times> Regexp) list \<Rightarrow> string \<Rightarrow> BrowserInfo" where
  "firstBrowser [] userAgent = \<lparr>Browser = ''other'', Version = []\<rparr>"
| "firstBrowser (test # tests) userAgent =
     (let matches = FindStringSubmatch (snd test) userAgent in
      if length matches > 1
      then \<lparr>Browser = fst test, Version = matches ! 1\<rparr>
      else firstBrowser tests userAgent)"

definition parseUserAgent :: "string \<Rightarrow> BrowserInfo" where
  "parseUserAgent userAgent =
     (if userAgent = [] then \<lparr>Browser = ''unknown'', Version = []\<rparr>
      else firstBrowser browserTests userAgent)"

section \<open>The memory: maps, string arrays and event arrays\<close>

text \<open>
  A Go map and the backing array of a slice are objects that several values can refer
  to.  A map value is the address of a map object, \<open>None\<close> for the nil map; a slice is
  the address of its backing array with its length and capacity.  \<open>objs\<close> holds the map
  objects and the arrays of strings that tracking events refer to, with the next
  unused address.
\<close>

type_synonym gomap = "string \<rightharpoonup> string"

record slice =
  s_ptr :: addr
  s_len :: nat
  s_cap :: nat

record objs =
  o_maps :: "addr \<Rightarrow> gomap"
  o_strs :: "addr \<Rightarrow> string list"
  o_next :: addr

definition new_map :: "gomap \<Rightarrow> objs \<Rightarrow> addr \<times> objs" where
  "new_map m h = (o_next h, h\<lparr>o_maps := (o_maps h)(o_next h := m), o_next := o_next h + 1\<rparr>)"

definition new_strs :: "string list \<Rightarrow> objs \<Rightarrow> slice \<times> objs" where
  "new_strs xs h =
     (\<lparr>s_ptr = o_next h, s_len = length xs, s_cap = length xs\<rparr>,
      h\<lparr>o_strs := (o_strs h)(o_next h := xs), o_next := o_next h + 1\<rparr>)"

section \<open>The types of main.go\<close>

text \<open>\<open>MaxAge\<close> is a Go \<open>int\<close> that the program only copies.\<close>

record Config =
  DisableCookies :: bool
  MaxAge :: int
  CookieName :: string
  TrackIP :: bool
  Port :: string

record GeoInfo =
  geo_IP :: string

text \<open>
  \<open>TrackingData\<close>, field by field.  The three maps are references; \<open>Language\<close> is a
  slice of strings.  The empty string is the zero value of \<open>IP\<close>, which the JSON
  encoding omits.
\<close>

record TrackingData =
  td_Cookies :: "addr option"
  td_Host :: string
  td_Path :: string
  td_Referer :: string
  td_Params :: "addr option"
  td_Query :: "addr option"
  td_IP :: string
  td_Decay :: int64
  td_UserAgent :: BrowserInfo
  td_Language :: slice
  td_Geo :: GeoInfo
  td_Domain :: string
  td_Timestamp :: Time

definition zeroTrackingData :: TrackingData where
  "zeroTrackingData =
     \<lparr>td_Cookies = None, td_Host = [], td_Path = [], td_Referer = [], td_Params = None,
      td_Query = None, td_IP = [], td_Decay = 0,
      td_UserAgent = \<lparr>Browser = [], Version = []\<rparr>,
      td_Language = \<lparr>s_ptr = 0, s_len = 0, s_cap = 0\<rparr>,
      td_Geo = \<lparr>geo_IP = []\<rparr>, td_Domain = [], td_Timestamp = 0\<rparr>"

text \<open>
  A handler is called with a pointer to a \<open>TrackingData\<close>.  Through it the handler can
  read and assign the fields of that value and reach the maps and the array the fields
  refer to; it is modelled by what it does to them.
\<close>

type_synonym handler = "TrackingData \<Rightarrow> objs \<Rightarrow> TrackingData \<times> objs"

text \<open>
  The backing arrays of \<open>[]TrackingData\<close> slices: the one of \<open>DataStore.data\<close> and those
  of the copies \<open>GetTrackingData\<close> returns.  An array has as many elements as its
  capacity.
\<close>

record arrays =
  a_mem :: "addr \<Rightarrow> TrackingData list"
  a_next :: addr

text \<open>
  \<open>PixelTracker\<close> with its \<open>DataStore\<close>; the two mutexes have no state of their own in a
  model where each locked section is one step.
\<close>

record PixelTracker =
  config :: Config
  handlers :: "handler list"
  dataStore_data :: slice

text \<open>
  What the Go runtime and the packages outside the repository decide: the capacity
  \<open>append\<close> picks when it has to grow an array for \<open>n\<close> elements, the state of the global
  generator after \<open>rand.Seed\<close>, the next \<open>rand.Float64\<close> with the state it leaves, the
  text \<open>%f\<close> prints for a \<open>float64\<close>, the MD5 digest, and the host name \<open>url.Parse\<close> and
  \<open>Hostname\<close> find (\<open>None\<close> when parsing fails).  \<open>'g\<close> is the state of the generator
  and \<open>'f\<close> stands for \<open>float64\<close>.
\<close>

typedef digest = "{bs :: byte list. length bs = 16}"
  morphisms digest_bytes Digest
  by (rule exI [of _ "replicate 16 0"]) simp

record ('g, 'f) runtime =
  rt_growslice :: "nat \<Rightarrow> nat"
  rt_Seed :: "int64 \<Rightarrow> 'g"
  rt_Float64 :: "'g \<Rightarrow> 'f \<times> 'g"
  rt_Sprintf_f :: "'f \<Rightarrow> string"
  rt_md5_Sum :: "string \<Rightarrow> digest"
  rt_Hostname :: "string \<Rightarrow> string option"

section \<open>Construction and configuration\<close>

definition NewPixelTracker :: "PixelTracker \<times> arrays" where
  "NewPixelTracker =
     (\<lparr>config = \<lparr>DisableCookies = False, MaxAge = 2592000, CookieName = ''_tracker'',
                   TrackIP = True, Port = ''8080''\<rparr>,
       handlers = [],
       dataStore_data = \<lparr>s_ptr = 0, s_len = 0, s_cap = 0\<rparr>\<rparr>,
      \<lparr>a_mem = (\<lambda>p. []), a_next = 1\<rparr>)"


definition Use :: "PixelTracker \<Rightarrow> handler \<Rightarrow> PixelTracker" where
  "Use pt handler = pt\<lparr>handlers := handlers pt @ [handler]\<rparr>"

section \<open>The identity token\<close>

definition hextable :: string where
  "hextable = ''0123456789abcdef''"

text \<open>\<open>hex.EncodeToString\<close>: two digits for every byte, the high half first.\<close>

definition hex_EncodeToString :: "byte list \<Rightarrow> string" where
  "hex_EncodeToString src =
     concat (map (\<lambda>v. [hextable ! unat (drop_bit 4 v), hextable ! unat (v AND 0x0f)]) src)"

text \<open>
  \<open>generateUserToken\<close> reads the clock, seeds the global generator, draws one number,
  prints it and hashes the text.  The arguments are the reading of the clock and the
  state of the generator before the call; the results are the token and the state of
  the generator after it.
\<close>

definition generateUserToken :: "('g, 'f) runtime \<Rightarrow> Time \<Rightarrow> 'g \<Rightarrow> string \<times> 'g" where
  "generateUserToken rt now g =
     (let g1 = rt_Seed rt (Time_UnixNano now);
          (f, g2) = rt_Float64 rt g1;
          val = rt_Sprintf_f rt f;
          hash = rt_md5_Sum rt val
      in (hex_EncodeToString (digest_bytes hash), g2))"

section \<open>PixelHandler\<close>

definition pixel1x1 :: "byte list" where
  "pixel1x1 =
     [0x47, 0x49, 0x46, 0x38, 0x39, 0x61, 0x01, 0x00, 0x01, 0x00, 0x80, 0x00,
      0x00, 0x00, 0x00, 0x00, 0x00, 0x00, 0x00, 0x21, 0xf9, 0x04, 0x01, 0x00,
      0x00, 0x00, 0x00, 0x2c, 0x00, 0x00, 0x00, 0x00, 0x01, 0x00, 0x01, 0x00,
      0x00, 0x02, 0x02, 0x44, 0x01, 0x00, 0x3b]"

text \<open>
  The fields of \<open>http.Cookie\<close> that \<open>PixelHandler\<close> sets; the others keep their zero
  value.
\<close>

record Cookie =
  c_Name :: string
  c_Value :: string
  c_MaxAge :: int
  c_HttpOnly :: bool
  c_Path :: string

text \<open>
  The response as the handler builds it through \<open>http.ResponseWriter\<close>: the header
  fields \<open>Header().Set\<close> stores, the cookies passed to \<open>http.SetCookie\<close> in the order of
  the calls, and the bytes written to the body.
\<close>

record Response =
  w_Header :: Header
  w_SetCookie :: "Cookie list"
  w_Body :: "byte list"

definition newResponse :: Response where
  "newResponse = \<lparr>w_Header = Map.empty, w_SetCookie = [], w_Body = []\<rparr>"

definition Header_Set :: "Response \<Rightarrow> string \<Rightarrow> string \<Rightarrow> Response" where
  "Header_Set w key v = w\<lparr>w_Header := (w_Header w)(key \<mapsto> [v])\<rparr>"

definition http_SetCookie :: "Response \<Rightarrow> Cookie \<Rightarrow> Response" where
  "http_SetCookie w c = w\<lparr>w_SetCookie := w_SetCookie w @ [c]\<rparr>"

definition w_Write :: "Response \<Rightarrow> byte list \<Rightarrow> Response" where
  "w_Write w bs = w\<lparr>w_Body := w_Body w @ bs\<rparr>"

text \<open>
  \<open>r.Cookie(name)\<close>: the first cookie of the request with that name; \<open>None\<close> is the
  return of a nil cookie with \<open>http.ErrNoCookie\<close>, the only error it has.  For the
  empty name it returns that error without looking at the request.  net/http drops a
  cookie without a name when it parses the Cookie header, so that \<open>r.Cookies()\<close> holds
  none.
\<close>

definition Request_Cookie :: "Request \<Rightarrow> string \<Rightarrow> (string \<times> string) option" where
  "Request_Cookie r name =
     (if name = [] then None else find (\<lambda>c. fst c = name) (r_Cookies r))"

text \<open>
  \<open>PixelHandler\<close> up to the \<open>go\<close> statement.  It returns the response, the state of the
  generator and the cookie it passes to \<open>processRequest\<close>.
\<close>

definition PixelHandler ::
  "('g, 'f) runtime \<Rightarrow> PixelTracker \<Rightarrow> Response \<Rightarrow> Request \<Rightarrow> Time \<Rightarrow> 'g
     \<Rightarrow> Response \<times> 'g \<times> (string \<times> string) option" where
  "PixelHandler rt pt w r now g =
     (let w = Header_Set w ''Content-Type'' ''image/gif'';
          w = Header_Set w ''Cache-Control'' ''no-cache, no-store, must-revalidate'';
          w = Header_Set w ''Pragma'' ''no-cache'';
          w = Header_Set w ''Expires'' ''0'';
          cookie = Request_Cookie r (CookieName (config pt));
          (w, g) =
            (if \<not> DisableCookies (config pt) \<and> cookie = None
             then (let (token, g') = generateUserToken rt now g in
                   (http_SetCookie w
                      \<lparr>c_Name = CookieName (config pt), c_Value = token,
                       c_MaxAge = MaxAge (config pt), c_HttpOnly = True, c_Path = ''/''\<rparr>,
                    g'))
             else (w, g));
          w = w_Write w pixel1x1
      in (w, g, cookie))"

section \<open>The other extractors\<close>

text \<open>
  \<open>extractCookies\<close> and \<open>extractQueryParams\<close> make a new map each.  The loop of the
  first stores the cookies in order, so that a later cookie of the same name wins; the
  second keeps, for every key that has values, the first one.
\<close>

definition extractCookies :: "Request \<Rightarrow> objs \<Rightarrow> addr \<times> objs" where
  "extractCookies r h =
     new_map (foldl (\<lambda>cookies c. cookies(fst c \<mapsto> snd c)) Map.empty (r_Cookies r)) h"

definition extractQueryParams :: "Request \<Rightarrow> objs \<Rightarrow> addr \<times> objs" where
  "extractQueryParams r h =
     new_map (\<lambda>key. case r_URL_Query r key of
                      None \<Rightarrow> None
                    | Some [] \<Rightarrow> None
                    | Some (v # vs) \<Rightarrow> Some v) h"

definition getReferer :: "Request \<Rightarrow> string" where
  "getReferer r =
     (let referer = Header_Get (r_Header r) ''Referer'';
          referer = (if referer = [] then Header_Get (r_Header r) ''Referrer'' else referer);
          referer = (if referer = [] then ''direct'' else referer)
      in referer)"

definition extractDomain :: "('g, 'f) runtime \<Rightarrow> string \<Rightarrow> string" where
  "extractDomain rt host =
     (if host = [] then []
      else (case rt_Hostname rt (''http://'' @ host) of
              None \<Rightarrow> host
            | Some hostname \<Rightarrow> hostname))"

section \<open>Slices of tracking data\<close>

text \<open>The elements of a slice: the first \<open>len\<close> elements of its backing array.\<close>

definition slice_elems :: "arrays \<Rightarrow> slice \<Rightarrow> TrackingData list" where
  "slice_elems A s = take (s_len s) (a_mem A (s_ptr s))"

text \<open>
  \<open>append(s, x)\<close>: when the capacity allows, \<open>x\<close> is written into the backing array of
  \<open>s\<close> behind its last element; otherwise a new array is made, large enough, the
  elements are copied and \<open>x\<close> follows them.  The slice returned has one element more.
\<close>

definition go_append :: "(nat \<Rightarrow> nat) \<Rightarrow> arrays \<Rightarrow> slice \<Rightarrow> TrackingData \<Rightarrow> slice \<times> arrays" where
  "go_append grow A s x =
     (if s_len s < s_cap s
      then (s\<lparr>s_len := s_len s + 1\<rparr>,
            A\<lparr>a_mem := (a_mem A)(s_ptr s := (a_mem A (s_ptr s))[s_len s := x])\<rparr>)
      else (let n = s_len s + 1; c = max n (grow n); p = a_next A in
            (\<lparr>s_ptr = p, s_len = n, s_cap = c\<rparr>,
             A\<lparr>a_mem := (a_mem A)
                   (p := take (s_len s) (a_mem A (s_ptr s)) @ x # replicate (c - n) zeroTrackingData),
               a_next := p + 1\<rparr>)))"



section \<open>processRequest and GetTrackingData\<close>

text \<open>
  The first part of \<open>processRequest\<close> builds the \<open>TrackingData\<close>.  The clock is read
  twice: for \<open>Timestamp\<close> and inside \<open>getDecay\<close>.
\<close>

definition newTrackingData ::
  "('g, 'f) runtime \<Rightarrow> Config \<Rightarrow> Request \<Rightarrow> Time \<Rightarrow> Time \<Rightarrow> objs \<Rightarrow> TrackingData \<times> objs" where
  "newTrackingData rt cfg r now now_decay h =
     (let (cookies, h) = extractCookies r h;
          (query, h) = extractQueryParams r h;
          trackingData =
            zeroTrackingData
              \<lparr>td_Cookies := Some cookies, td_Host := r_Host r, td_Path := r_URL_Path r,
               td_Referer := getReferer r, td_Params := r_Vars r, td_Query := Some query,
               td_Timestamp := now\<rparr>;
          trackingData =
            (if TrackIP cfg then trackingData\<lparr>td_IP := getClientIP r\<rparr> else trackingData);
          trackingData =
            trackingData\<lparr>td_Decay := getDecay (Values_Get (r_URL_Query r) ''decay'') now_decay\<rparr>;
          trackingData =
            trackingData\<lparr>td_UserAgent := parseUserAgent (Header_Get (r_Header r) ''User-Agent'')\<rparr>;
          (language, h) = new_strs (parseLanguage (Header_Get (r_Header r) ''Accept-Language'')) h;
          trackingData = trackingData\<lparr>td_Language := language\<rparr>;
          trackingData = trackingData\<lparr>td_Geo := \<lparr>geo_IP = getClientIP r\<rparr>\<rparr>;
          trackingData = trackingData\<lparr>td_Domain := extractDomain rt (r_Host r)\<rparr>
      in (trackingData, h))"

text \<open>
  The locked section that appends \<open>*trackingData\<close>, a copy of the fields of the value,
  to \<open>dataStore.data\<close>.
\<close>

definition store_append ::
  "('g, 'f) runtime \<Rightarrow> PixelTracker \<Rightarrow> arrays \<Rightarrow> TrackingData \<Rightarrow> PixelTracker \<times> arrays" where
  "store_append rt pt A trackingData =
     (let (s, A) = go_append (rt_growslice rt) A (dataStore_data pt) trackingData
      in (pt\<lparr>dataStore_data := s\<rparr>, A))"

text \<open>The loop over the handlers: each is called with the same pointer.\<close>

definition run_handlers :: "handler list \<Rightarrow> TrackingData \<Rightarrow> objs \<Rightarrow> TrackingData \<times> objs" where
  "run_handlers hs trackingData h =
     foldl (\<lambda>(td, h) handler. handler td h) (trackingData, h) hs"

text \<open>
  \<open>processRequest\<close> up to the end of the locked section, and the whole of it.  The
  cookie that \<open>PixelHandler\<close> passes is not used.
\<close>

definition processRequest_capture ::
  "('g, 'f) runtime \<Rightarrow> PixelTracker \<Rightarrow> arrays \<Rightarrow> objs \<Rightarrow> Request \<Rightarrow> Time \<Rightarrow> Time
     \<Rightarrow> TrackingData \<times> PixelTracker \<times> arrays \<times> objs" where
  "processRequest_capture rt pt A h r now now_decay =
     (let (trackingData, h) = newTrackingData rt (config pt) r now now_decay h;
          (pt, A) = store_append rt pt A trackingData
      in (trackingData, pt, A, h))"

definition processRequest ::
  "('g, 'f) runtime \<Rightarrow> PixelTracker \<Rightarrow> arrays \<Rightarrow> objs \<Rightarrow> Request \<Rightarrow> (string \<times> string) option
     \<Rightarrow> Time \<Rightarrow> Time \<Rightarrow> PixelTracker \<times> arrays \<times> objs" where
  "processRequest rt pt A h r cookie now now_decay =
     (let (trackingData, pt, A, h) = processRequest_capture rt pt A h r now now_decay;
          (trackingData, h) = run_handlers (handlers pt) trackingData h
      in (pt, A, h))"



text \<open>
  The store is well formed when its slice lies within an allocated array of the size of
  its capacity.  \<open>NewPixelTracker\<close> makes it so and every operation keeps it so.
\<close>

definition wf_store :: "PixelTracker \<Rightarrow> arrays \<Rightarrow> bool" where
  "wf_store pt A \<longleftrightarrow>
     s_ptr (dataStore_data pt) < a_next A \<and>
     s_len (dataStore_data pt) \<le> s_cap (dataStore_data pt) \<and>
     length (a_mem A (s_ptr (dataStore_data pt))) = s_cap (dataStore_data pt)"

section \<open>What a stored event shows\<close>

text \<open>
  The value of an event as a reader of the store sees it, for instance the JSON
  encoder of \<open>StatsHandler\<close>: the fields, with the contents of the maps and of the
  language array they refer to.
\<close>

record EventValue =
  ev_Cookies :: "gomap option"
  ev_Host :: string
  ev_Path :: string
  ev_Referer :: string
  ev_Params :: "gomap option"
  ev_Query :: "gomap option"
  ev_IP :: string
  ev_Decay :: int64
  ev_UserAgent :: BrowserInfo
  ev_Language :: "string list"
  ev_Geo :: GeoInfo
  ev_Domain :: string
  ev_Timestamp :: Time

definition event_value :: "objs \<Rightarrow> TrackingData \<Rightarrow> EventValue" where
  "event_value h td =
     \<lparr>ev_Cookies = map_option (o_maps h) (td_Cookies td),
      ev_Host = td_Host td, ev_Path = td_Path td, ev_Referer = td_Referer td,
      ev_Params = map_option (o_maps h) (td_Params td),
      ev_Query = map_option (o_maps h) (td_Query td),
      ev_IP = td_IP td, ev_Decay = td_Decay td, ev_UserAgent = td_UserAgent td,
      ev_Language = take (s_len (td_Language td)) (o_strs h (s_ptr (td_Language td))),
      ev_Geo = td_Geo td, ev_Domain = td_Domain td, ev_Timestamp = td_Timestamp td\<rparr>"

text \<open>
  Two kinds of handler.  \<open>assign f\<close> assigns fields of the event it receives, as
  \<open>data.Path = ...\<close> does.  \<open>put_query k v\<close> is \<open>data.Query[k] = v\<close>.  The \<open>Query\<close> of an
  event that \<open>processRequest\<close> built is never nil; on a nil map the assignment would
  panic, and the model leaves the memory as it is there.
\<close>

definition assign :: "(TrackingData \<Rightarrow> TrackingData) \<Rightarrow> handler" where
  "assign f = (\<lambda>td h. (f td, h))"

definition put_query :: "string \<Rightarrow> string \<Rightarrow> handler" where
  "put_query k v =
     (\<lambda>td h. case td_Query td of
                None \<Rightarrow> (td, h)
              | Some a \<Rightarrow> (td, h\<lparr>o_maps := (o_maps h)(a := (o_maps h a)(k \<mapsto> v))\<rparr>))"

section \<open>Concrete inputs\<close>

text \<open>
  A request for \<open>/pixel.gif\<close> from 192.168.1.1 with no headers, no cookies and no
  query string, as the tests of the repository build it.
\<close>

definition request0 :: Request where
  "request0 = \<lparr>r_Header = Map.empty, r_Cookies = [], r_Host = ''example.com'',
                r_URL_Path = ''/pixel.gif'', r_URL_Query = Map.empty,
                r_RemoteAddr = ''192.168.1.1:12345'', r_Vars = None\<rparr>"

text \<open>The user agents of Chrome and of Edge in the tests of the repository.\<close>

definition chromeUA :: string where
  "chromeUA = ''Mozilla/5.0 (Windows NT 10.0; Win64; x64) AppleWebKit/537.36 (KHTML, like Gecko) Chrome/116.0.0.0 Safari/537.36''"

definition edgeUA :: string where
  "edgeUA = chromeUA @ '' Edg/116.0.1938.69''"

text \<open>
  A runtime to evaluate the model with: \<open>append\<close> doubles the capacity, the state of
  the generator is the seed and a counter, and fixed values stand for the number drawn,
  its text and the digest.
\<close>

definition runtime0 :: "(int64, int64) runtime" where
  "runtime0 =
     \<lparr>rt_growslice = (\<lambda>n. 2 * n),
      rt_Seed = (\<lambda>seed. seed),
      rt_Float64 = (\<lambda>g. (g, g + 1)),
      rt_Sprintf_f = (\<lambda>f. ''0.604660''),
      rt_md5_Sum = (\<lambda>s. Digest (replicate 16 0xa8)),
      rt_Hostname = (\<lambda>u. Some (takeWhile (\<lambda>c. c \<noteq> CHR '':'') (drop 7 u)))\<rparr>"

text \<open>A handler that assigns a field of the event: \<open>data.Path = "/changed"\<close>.\<close>

definition rename_path :: handler where
  "rename_path = assign (\<lambda>td. td\<lparr>td_Path := ''/changed''\<rparr>)"




text \<open>A memory without objects.\<close>

definition objs0 :: objs where
  "objs0 = \<lparr>o_maps = (\<lambda>p. Map.empty), o_strs = (\<lambda>p. []), o_next = 1\<rparr>"

section \<open>Properties of the string functions\<close>

lemma strings_Split_nonempty: "strings_Split s sep \<noteq> []"
  by (induction s) (auto split: list.splits)



lemma strings_Split_no_sep: "p \<in> set (strings_Split s sep) \<Longrightarrow> sep \<notin> set p"
  by (induction s arbitrary: p) (auto split: list.splits if_splits)

lemma strings_Join_Cons: "strings_Join ((a # p) # ps) sep = a # strings_Join (p # ps) sep"
  by (cases ps) auto

lemma strings_Join_Split: "strings_Join (strings_Split s sep) sep = s"
  by (induction s) (auto split: list.splits simp: strings_Split_nonempty strings_Join_Cons)

lemma length_strings_Split: "length (strings_Split s sep) = Suc (count_list s sep)"
  by (induction s) (auto split: list.splits simp: strings_Split_nonempty)


lemma strings_TrimSpace_ascii:
  "strings_TrimSpace ([CHR 0x20, CHR 0x09] @ ''en US'' @ [CHR 0x0D, CHR 0x0A]) = ''en US''"
  by code_simp

lemma strings_TrimSpace_wide:
  "strings_TrimSpace ([CHR 0xC2, CHR 0xA0] @ ''fr'' @ [CHR 0xE3, CHR 0x80, CHR 0x80, CHR 0x20]) = ''fr''"
  by code_simp

lemma strings_TrimSpace_all_space: "strings_TrimSpace [CHR 0x20, CHR 0xE2, CHR 0x80, CHR 0xA8] = []"
  by code_simp

lemma strings_TrimSpace_not_space:
  "strings_TrimSpace [CHR 0xC2, CHR 0x20] = [CHR 0xC2]"
  by code_simp

section \<open>parseLanguage\<close>



section \<open>getClientIP\<close>








section \<open>getDecay\<close>

lemma Values_Get_empty_iff:
  "Values_Get q k = [] \<longleftrightarrow> (q k = None \<or> q k = Some [] \<or> (\<exists>vs. q k = Some ([] # vs)))"
  by (auto simp: Values_Get_def split: option.splits list.splits)

lemma sint_times_1000:
  assumes "0 \<le> x" "x < 2 ^ 50"
  shows "sint ((word_of_int x :: 64 word) * 1000) = x * 1000"
proof -
  have lo: "- (2 ^ 63) \<le> x * 1000" and hi: "x * 1000 < 2 ^ 63"
    using assms by simp_all
  have "sint ((word_of_int x :: 64 word) * 1000) = sint (word_of_int (x * 1000) :: 64 word)"
    by simp
  also have "\<dots> = signed_take_bit 63 (x * 1000)"
    by (simp only: sint_sbintrunc') simp
  also have "\<dots> = x * 1000"
    using lo hi by (rule signed_take_bit_int_eq_self)
  finally show ?thesis .
qed

lemma getDecay_empty:
  assumes "0 \<le> now" "now < 2 ^ 62"
  shows "sint (getDecay [] now) = ((now + 300000000000) div 1000000000) * 1000"
proof -
  let ?x = "(now + 300000000000) div 1000000000"
  have "0 \<le> ?x" using assms by simp
  moreover have "?x < 2 ^ 50"
    using assms by simp
  ultimately show ?thesis
    by (simp add: getDecay_def Time_Unix_def Time_Add_def Minute_def sint_times_1000)
qed

text \<open>
  Claim C6, as amended.  \<open>processRequest\<close> computes the decay as
  \<open>getDecay(r.URL.Query().Get("decay"))\<close>.  \<open>Get\<close> returns the empty string when the
  request has no \<open>decay\<close> parameter and also when the first \<open>decay\<close> parameter has the
  empty value (\<open>?decay=\<close>).  In both cases the decay is the current time plus 5 minutes
  in whole Unix seconds, times 1000: epoch milliseconds at the resolution of a second.
  When the first \<open>decay\<close> value is not empty the decay is 0.  The time is any instant
  whose Unix nanoseconds are between 0 and \<open>2 ^ 62\<close>.
\<close>

theorem getDecay_request:
  assumes "0 \<le> now" and "now < 2 ^ 62"
  shows "(Values_Get (r_URL_Query r) ''decay'' = [] \<longleftrightarrow>
            (r_URL_Query r ''decay'' = None \<or> r_URL_Query r ''decay'' = Some [] \<or>
             (\<exists>vs. r_URL_Query r ''decay'' = Some ([] # vs))))
       \<and> (Values_Get (r_URL_Query r) ''decay'' = [] \<longrightarrow>
            sint (getDecay (Values_Get (r_URL_Query r) ''decay'') now)
              = ((now + 5 * Minute) div 1000000000) * 1000)
       \<and> (Values_Get (r_URL_Query r) ''decay'' \<noteq> [] \<longrightarrow>
            getDecay (Values_Get (r_URL_Query r) ''decay'') now = 0)"
  using assms getDecay_empty [of now]
  by (auto simp: Values_Get_empty_iff Minute_def getDecay_def)

theorem getDecay_request_witness:
  "sint (getDecay (Values_Get (r_URL_Query request0) ''decay'') 1700000000500000000) = 1700000300000
   \<and> getDecay (Values_Get (r_URL_Query (request0\<lparr>r_URL_Query := [''decay'' \<mapsto> [''60'']]\<rparr>)) ''decay'')
        1700000000500000000 = 0"
  using getDecay_request [of 1700000000500000000 request0]
        getDecay_request [of 1700000000500000000 "request0\<lparr>r_URL_Query := [''decay'' \<mapsto> [''60'']]\<rparr>"]
  by (simp add: request0_def Values_Get_def Minute_def)

text \<open>
  The claim as stated fails at the request \<open>/pixel.gif?decay=\<close>, which supplies a
  \<open>decay\<close> parameter and gets a decay that is not 0; and half a second after a full
  second the decay of a request without the parameter is not the epoch milliseconds of
  the current time plus 5 minutes.
\<close>

theorem getDecay_any_value_counterexample:
  "getDecay (Values_Get (r_URL_Query (request0\<lparr>r_URL_Query := [''decay'' \<mapsto> [[]]]\<rparr>)) ''decay'')
        1700000000500000000 \<noteq> 0
   \<and> sint (getDecay (Values_Get (r_URL_Query request0) ''decay'') 1700000000500000000)
        \<noteq> (1700000000500000000 + 5 * Minute) div 1000000"
  by (simp add: request0_def Values_Get_def Minute_def getDecay_def Time_Unix_def Time_Add_def)

section \<open>parseUserAgent: the matcher and the order of the tests\<close>

lemma run_lits: "run (lits p @ ns) s g = (if prefix p s then run ns (drop (length p) s) g else None)"
proof (induction p arbitrary: s)
  case Nil
  then show ?case by (simp add: lits_def)
next
  case (Cons c p)
  show ?case
  proof (cases s)
    case Nil
    then show ?thesis by (simp add: lits_def)
  next
    case (Cons x xs)
    with Cons.IH [of xs] show ?thesis by (simp add: lits_def)
  qed
qed

lemma run_Star_Close:
  "run [Star k, Close] s g = Some (dropWhile (member_cls k) s, fst g, dropWhile (member_cls k) s)"
  by (induction s) auto

lemma run_group:
  "run [Open, Plus k, Close] s g =
     (case s of [] \<Rightarrow> None
      | x # xs \<Rightarrow> if member_cls k x
                 then Some (dropWhile (member_cls k) s, s, dropWhile (member_cls k) s)
                 else None)"
  by (cases s) (auto simp: run_Star_Close)

lemma take_length_dropWhile:
  "take (length xs - length (dropWhile P xs)) xs = takeWhile P xs"
proof -
  have "length xs - length (dropWhile P xs) = length (takeWhile P xs)"
    by (metis add_diff_cancel_right' length_append takeWhile_dropWhile_id)
  then show ?thesis
    by (metis append_eq_conv_conj takeWhile_dropWhile_id)
qed

lemma take_append_dropWhile:
  "take (length (p @ t) - length (dropWhile P t)) (p @ t) = p @ takeWhile P t"
proof -
  have "length (p @ t) - length (dropWhile P t) = length p + (length t - length (dropWhile P t))"
    using length_dropWhile_le [of P t] by simp
  then show ?thesis by (simp add: take_length_dropWhile)
qed

lemma run_token:
  "run (lits p @ [Open, Plus k, Close]) (p @ t) g =
     (if t \<noteq> [] \<and> member_cls k (hd t)
      then Some (dropWhile (member_cls k) t, t, dropWhile (member_cls k) t)
      else None)"
  by (cases t) (simp_all add: run_lits run_group del: run.simps)

lemma match_at_token:
  "match_at (lits p @ [Open, Plus k, Close]) s =
     (if prefix p s \<and> drop (length p) s \<noteq> [] \<and> member_cls k (hd (drop (length p) s))
      then Some [p @ takeWhile (member_cls k) (drop (length p) s),
                 takeWhile (member_cls k) (drop (length p) s)]
      else None)"
proof (cases "prefix p s")
  case False
  then show ?thesis by (simp add: match_at_def run_lits)
next
  case True
  then obtain t where s: "s = p @ t" by (auto simp: prefix_def)
  show ?thesis
    unfolding s match_at_def run_token
    by (simp add: take_append_dropWhile take_length_dropWhile del: length_append take_append)
qed

lemma match_at_length: "match_at re s = Some m \<Longrightarrow> length m = 2"
  by (auto simp: match_at_def split: option.splits)

lemma FindStringSubmatch_length: "length (FindStringSubmatch re s) = 0 \<or> length (FindStringSubmatch re s) = 2"
  by (induction s) (auto split: option.splits dest: match_at_length)

lemma FindStringSubmatch_later:
  "match_at re s \<noteq> None \<Longrightarrow> length (FindStringSubmatch re (pre @ s)) = 2"
proof (induction pre)
  case Nil
  then show ?case by (cases s) (auto dest: match_at_length)
next
  case (Cons x pre)
  then show ?case by (auto split: option.splits dest: match_at_length)
qed

lemma FindStringSubmatch_skip:
  "(\<And>a b. pre = a @ b \<Longrightarrow> b \<noteq> [] \<Longrightarrow> match_at re (b @ s) = None)
   \<Longrightarrow> FindStringSubmatch re (pre @ s) = FindStringSubmatch re s"
proof (induction pre)
  case Nil
  then show ?case by simp
next
  case (Cons x pre)
  have "match_at re ((x # pre) @ s) = None"
    using Cons.prems [of "[]" "x # pre"] by simp
  moreover have "FindStringSubmatch re (pre @ s) = FindStringSubmatch re s"
  proof (rule Cons.IH)
    fix a b assume "pre = a @ b" "b \<noteq> []"
    then show "match_at re (b @ s) = None"
      using Cons.prems [of "x # a" b] by simp
  qed
  ultimately show ?case by simp
qed

lemma FindStringSubmatch_here:
  "match_at re s = Some m \<Longrightarrow> FindStringSubmatch re s = m"
  by (cases s) auto


lemma firstBrowser_first:
  "i < length ts \<Longrightarrow>
   (\<And>j. j < i \<Longrightarrow> FindStringSubmatch (snd (ts ! j)) ua = []) \<Longrightarrow>
   FindStringSubmatch (snd (ts ! i)) ua = [whole, version] \<Longrightarrow>
   firstBrowser ts ua = \<lparr>Browser = fst (ts ! i), Version = version\<rparr>"
proof (induction ts arbitrary: i)
  case Nil
  then show ?case by simp
next
  case (Cons t ts)
  show ?case
  proof (cases i)
    case 0
    with Cons.prems(3) show ?thesis by simp
  next
    case (Suc k)
    have none: "FindStringSubmatch (snd t) ua = []"
      using Cons.prems(2) [of 0] Suc by simp
    have "firstBrowser ts ua = \<lparr>Browser = fst (ts ! k), Version = version\<rparr>"
    proof (rule Cons.IH)
      show "k < length ts" using Cons.prems(1) Suc by simp
      show "FindStringSubmatch (snd (ts ! k)) ua = [whole, version]"
        using Cons.prems(3) Suc by simp
      fix j assume "j < k"
      then show "FindStringSubmatch (snd (ts ! j)) ua = []"
        using Cons.prems(2) [of "Suc j"] Suc by simp
    qed
    with none Suc show ?thesis by simp
  qed
qed

lemma firstBrowser_none:
  "(\<And>j. j < length ts \<Longrightarrow> FindStringSubmatch (snd (ts ! j)) ua = []) \<Longrightarrow>
   firstBrowser ts ua = \<lparr>Browser = ''other'', Version = []\<rparr>"
proof (induction ts)
  case Nil
  then show ?case by simp
next
  case (Cons t ts)
  have "FindStringSubmatch (snd t) ua = []"
    using Cons.prems [of 0] by simp
  moreover have "firstBrowser ts ua = \<lparr>Browser = ''other'', Version = []\<rparr>"
  proof (rule Cons.IH)
    fix j assume "j < length ts"
    then show "FindStringSubmatch (snd (ts ! j)) ua = []"
      using Cons.prems [of "Suc j"] by simp
  qed
  ultimately show ?case by simp
qed

lemma Edg_prefix_overlap:
  assumes "b \<noteq> []" and "\<not> sublist ''Edg/'' (a @ b)"
  shows "\<not> prefix ''Edg/'' (b @ CHR ''E'' # t)"
proof
  assume p: "prefix ''Edg/'' (b @ CHR ''E'' # t)"
  have "prefix ''Edg/'' b"
  proof (cases b)
    case Nil
    with assms(1) show ?thesis by simp
  next
    case b1: (Cons x1 r1)
    show ?thesis
    proof (cases r1)
      case Nil
      with p b1 show ?thesis by simp
    next
      case b2: (Cons x2 r2)
      show ?thesis
      proof (cases r2)
        case Nil
        with p b1 b2 show ?thesis by simp
      next
        case b3: (Cons x3 r3)
        show ?thesis
        proof (cases r3)
          case Nil
          with p b1 b2 b3 show ?thesis by simp
        next
          case (Cons x4 r4)
          with p b1 b2 b3 show ?thesis by simp
        qed
      qed
    qed
  qed
  then have "sublist ''Edg/'' (a @ b)"
    by (metis prefix_def sublist_appendI)
  with assms(2) show False by simp
qed

lemma Edg_found:
  "length (FindStringSubmatch (lits ''Edg/'' @ [Open, Plus NotSpace, Close])
             (pre @ ''Edg/116.0.1938.69'' @ post)) = 2"
proof (rule FindStringSubmatch_later)
  show "match_at (lits ''Edg/'' @ [Open, Plus NotSpace, Close]) (''Edg/116.0.1938.69'' @ post) \<noteq> None"
    by (simp add: match_at_token)
qed

lemma Edg_version:
  assumes "\<not> sublist ''Edg/'' pre" and "post = [] \<or> \<not> member_cls NotSpace (hd post)"
  shows "FindStringSubmatch (lits ''Edg/'' @ [Open, Plus NotSpace, Close])
           (pre @ ''Edg/116.0.1938.69'' @ post) = [''Edg/116.0.1938.69'', ''116.0.1938.69'']"
proof -
  let ?re = "lits ''Edg/'' @ [Open, Plus NotSpace, Close]"
  have tw: "takeWhile (member_cls NotSpace) post = []"
    using assms(2) by (cases post) auto
  have here: "match_at ?re (''Edg/116.0.1938.69'' @ post)
                = Some [''Edg/116.0.1938.69'', ''116.0.1938.69'']"
    by (simp add: match_at_token tw)
  have "FindStringSubmatch ?re (pre @ ''Edg/116.0.1938.69'' @ post)
          = FindStringSubmatch ?re (''Edg/116.0.1938.69'' @ post)"
  proof (rule FindStringSubmatch_skip)
    fix a b assume ab: "pre = a @ b" "b \<noteq> []"
    then have "\<not> prefix ''Edg/'' (b @ ''Edg/116.0.1938.69'' @ post)"
      using Edg_prefix_overlap [of b a] assms(1) by simp
    then show "match_at ?re (b @ ''Edg/116.0.1938.69'' @ post) = None"
      by (simp add: match_at_token)
  qed
  also have "\<dots> = [''Edg/116.0.1938.69'', ''116.0.1938.69'']"
    using here by (rule FindStringSubmatch_here)
  finally show ?thesis .
qed

lemma browserTests_names:
  "map fst browserTests = [''Edge'', ''Firefox'', ''Safari'', ''Chrome'', ''Opera'', ''MSIE'']"
  by (simp add: browserTests_def)

lemma parseUserAgent_Edg_browser:
  "Browser (parseUserAgent (pre @ ''Edg/116.0.1938.69'' @ post)) = ''Edge''"
  using Edg_found [of pre post]
  by (simp add: parseUserAgent_def browserTests_def Let_def)

lemma parseUserAgent_Edg_version:
  assumes "\<not> sublist ''Edg/'' pre" and "post = [] \<or> \<not> member_cls NotSpace (hd post)"
  shows "parseUserAgent (pre @ ''Edg/116.0.1938.69'' @ post)
           = \<lparr>Browser = ''Edge'', Version = ''116.0.1938.69''\<rparr>"
  using Edg_version [OF assms]
  by (simp add: parseUserAgent_def browserTests_def Let_def)

text \<open>
  Claim C4, as amended.  \<open>parseUserAgent\<close> returns \<open>unknown\<close> with an empty version for
  the empty string.  Otherwise it tries the patterns of Edge, Firefox, Safari, Chrome,
  Opera and MSIE in this order and returns the name of the first that matches, with the
  text of its group; when none matches it returns \<open>other\<close> with an empty version.  An
  input that contains \<open>Edg/116.0.1938.69\<close>, whatever else it contains, \<open>Chrome/116.0.0.0\<close>
  included, is reported as Edge; the version is \<open>116.0.1938.69\<close> when no \<open>Edg/\<close> occurs
  before that token and the token ends the input or white space follows it.
\<close>

theorem parseUserAgent_first_match:
  "parseUserAgent [] = \<lparr>Browser = ''unknown'', Version = []\<rparr>
   \<and> map fst browserTests = [''Edge'', ''Firefox'', ''Safari'', ''Chrome'', ''Opera'', ''MSIE'']
   \<and> (ua \<noteq> [] \<and> i < length browserTests \<and>
       (\<forall>j<i. FindStringSubmatch (snd (browserTests ! j)) ua = []) \<and>
       FindStringSubmatch (snd (browserTests ! i)) ua = [whole, version] \<longrightarrow>
       parseUserAgent ua = \<lparr>Browser = fst (browserTests ! i), Version = version\<rparr>)
   \<and> (ua \<noteq> [] \<and> (\<forall>j<length browserTests. FindStringSubmatch (snd (browserTests ! j)) ua = []) \<longrightarrow>
       parseUserAgent ua = \<lparr>Browser = ''other'', Version = []\<rparr>)
   \<and> Browser (parseUserAgent (pre @ ''Edg/116.0.1938.69'' @ post)) = ''Edge''
   \<and> (\<not> sublist ''Edg/'' pre \<and> (post = [] \<or> \<not> member_cls NotSpace (hd post)) \<longrightarrow>
       parseUserAgent (pre @ ''Edg/116.0.1938.69'' @ post)
         = \<lparr>Browser = ''Edge'', Version = ''116.0.1938.69''\<rparr>)"
proof (intro conjI impI)
  show "parseUserAgent [] = \<lparr>Browser = ''unknown'', Version = []\<rparr>"
    by (simp add: parseUserAgent_def)
  show "map fst browserTests = [''Edge'', ''Firefox'', ''Safari'', ''Chrome'', ''Opera'', ''MSIE'']"
    by (rule browserTests_names)
  show "Browser (parseUserAgent (pre @ ''Edg/116.0.1938.69'' @ post)) = ''Edge''"
    by (rule parseUserAgent_Edg_browser)
next
  assume a: "ua \<noteq> [] \<and> i < length browserTests \<and>
       (\<forall>j<i. FindStringSubmatch (snd (browserTests ! j)) ua = []) \<and>
       FindStringSubmatch (snd (browserTests ! i)) ua = [whole, version]"
  then have "firstBrowser browserTests ua = \<lparr>Browser = fst (browserTests ! i), Version = version\<rparr>"
    using firstBrowser_first [of i browserTests ua whole version] by blast
  with a show "parseUserAgent ua = \<lparr>Browser = fst (browserTests ! i), Version = version\<rparr>"
    by (simp add: parseUserAgent_def)
next
  assume a: "ua \<noteq> [] \<and> (\<forall>j<length browserTests. FindStringSubmatch (snd (browserTests ! j)) ua = [])"
  then have "firstBrowser browserTests ua = \<lparr>Browser = ''other'', Version = []\<rparr>"
    using firstBrowser_none [of browserTests ua] by blast
  with a show "parseUserAgent ua = \<lparr>Browser = ''other'', Version = []\<rparr>"
    by (simp add: parseUserAgent_def)
next
  assume "\<not> sublist ''Edg/'' pre \<and> (post = [] \<or> \<not> member_cls NotSpace (hd post))"
  then show "parseUserAgent (pre @ ''Edg/116.0.1938.69'' @ post)
         = \<lparr>Browser = ''Edge'', Version = ''116.0.1938.69''\<rparr>"
    using parseUserAgent_Edg_version [of pre post] by blast
qed

theorem parseUserAgent_first_match_witness:
  "parseUserAgent chromeUA = \<lparr>Browser = ''Chrome'', Version = ''116.0.0.0''\<rparr>
   \<and> parseUserAgent ''CustomBot/1.0'' = \<lparr>Browser = ''other'', Version = []\<rparr>
   \<and> parseUserAgent edgeUA = \<lparr>Browser = ''Edge'', Version = ''116.0.1938.69''\<rparr>"
proof -
  have t0: "FindStringSubmatch (snd (browserTests ! 0)) chromeUA = []" by code_simp
  have t1: "FindStringSubmatch (snd (browserTests ! 1)) chromeUA = []" by code_simp
  have t2: "FindStringSubmatch (snd (browserTests ! 2)) chromeUA = []" by code_simp
  have t3: "FindStringSubmatch (snd (browserTests ! 3)) chromeUA = [''Chrome/116.0.0.0'', ''116.0.0.0'']"
    by code_simp
  have n3: "fst (browserTests ! 3) = ''Chrome''" by (simp add: browserTests_def)
  have len: "length browserTests = 6" by (simp add: browserTests_def)
  have ne: "chromeUA \<noteq> []" by (simp add: chromeUA_def)
  have before: "\<forall>j<3. FindStringSubmatch (snd (browserTests ! j)) chromeUA = []"
  proof (intro allI impI)
    fix j :: nat assume "j < 3"
    then consider "j = 0" | "j = 1" | "j = 2" by linarith
    then show "FindStringSubmatch (snd (browserTests ! j)) chromeUA = []"
      using t0 t1 t2 by cases simp_all
  qed
  have c: "parseUserAgent chromeUA = \<lparr>Browser = ''Chrome'', Version = ''116.0.0.0''\<rparr>"
    using parseUserAgent_first_match
            [where ua = chromeUA and i = 3 and whole = "''Chrome/116.0.0.0''" and version = "''116.0.0.0''"]
          ne len before t3 n3
    by simp
  have none: "\<forall>j<length browserTests. FindStringSubmatch (snd (browserTests ! j)) ''CustomBot/1.0'' = []"
  proof (intro allI impI)
    fix j :: nat assume "j < length browserTests"
    then consider "j = 0" | "j = 1" | "j = 2" | "j = 3" | "j = 4" | "j = 5"
      unfolding len by linarith
    then show "FindStringSubmatch (snd (browserTests ! j)) ''CustomBot/1.0'' = []"
      by cases (simp_all, code_simp+)
  qed
  have o: "parseUserAgent ''CustomBot/1.0'' = \<lparr>Browser = ''other'', Version = []\<rparr>"
    using parseUserAgent_first_match [where ua = "''CustomBot/1.0''"] none by simp
  have ns: "\<not> sublist ''Edg/'' (chromeUA @ '' '')" by code_simp
  have e: "parseUserAgent edgeUA = \<lparr>Browser = ''Edge'', Version = ''116.0.1938.69''\<rparr>"
    using parseUserAgent_first_match [where pre = "chromeUA @ '' ''" and post = "[]"] ns
    by (simp add: edgeUA_def)
  from c o e show ?thesis by blast
qed

text \<open>
  The claim as stated fails at an input that contains both tokens after an earlier
  \<open>Edg/\<close> token: the version is the one of the first match.
\<close>

theorem parseUserAgent_both_tokens_counterexample:
  "sublist ''Chrome/116.0.0.0'' ''Edg/1 Chrome/116.0.0.0 Edg/116.0.1938.69''
   \<and> sublist ''Edg/116.0.1938.69'' ''Edg/1 Chrome/116.0.0.0 Edg/116.0.1938.69''
   \<and> parseUserAgent ''Edg/1 Chrome/116.0.0.0 Edg/116.0.1938.69''
        = \<lparr>Browser = ''Edge'', Version = ''1''\<rparr>
   \<and> parseUserAgent ''Edg/1 Chrome/116.0.0.0 Edg/116.0.1938.69''
        \<noteq> \<lparr>Browser = ''Edge'', Version = ''116.0.1938.69''\<rparr>"
proof -
  have a: "sublist ''Chrome/116.0.0.0'' ''Edg/1 Chrome/116.0.0.0 Edg/116.0.1938.69''" by code_simp
  have b: "sublist ''Edg/116.0.1938.69'' ''Edg/1 Chrome/116.0.0.0 Edg/116.0.1938.69''" by code_simp
  have c: "parseUserAgent ''Edg/1 Chrome/116.0.0.0 Edg/116.0.1938.69''
        = \<lparr>Browser = ''Edge'', Version = ''1''\<rparr>" by code_simp
  from a b c show ?thesis by simp
qed

section \<open>generateUserToken\<close>












section \<open>The response of PixelHandler\<close>



text \<open>
  Claim C1.  For every tracker, request, clock reading and generator state, the handler
  writes exactly the 43 bytes of \<open>pixel1x1\<close> to a fresh response and sets Content-Type
  to \<open>image/gif\<close>, Cache-Control to \<open>no-cache, no-store, must-revalidate\<close>, Pragma to
  \<open>no-cache\<close> and Expires to \<open>0\<close>.
\<close>

theorem PixelHandler_response:
  "w_Body (fst (PixelHandler rt pt newResponse r now g)) = pixel1x1
   \<and> length (w_Body (fst (PixelHandler rt pt newResponse r now g))) = 43
   \<and> Header_Get (w_Header (fst (PixelHandler rt pt newResponse r now g))) ''Content-Type'' = ''image/gif''
   \<and> Header_Get (w_Header (fst (PixelHandler rt pt newResponse r now g))) ''Cache-Control''
        = ''no-cache, no-store, must-revalidate''
   \<and> Header_Get (w_Header (fst (PixelHandler rt pt newResponse r now g))) ''Pragma'' = ''no-cache''
   \<and> Header_Get (w_Header (fst (PixelHandler rt pt newResponse r now g))) ''Expires'' = ''0''"
  by (simp add: PixelHandler_def Let_def Header_Set_def http_SetCookie_def w_Write_def
      newResponse_def Header_Get_def pixel1x1_def split: prod.splits)



section \<open>The event store\<close>


lemma take_Suc_update: "n < length xs \<Longrightarrow> take (Suc n) (xs[n := x]) = take n xs @ [x]"
  by (simp add: take_Suc_conv_app_nth)

lemma store_append_elems:
  assumes "wf_store pt A"
  shows "slice_elems (snd (store_append rt pt A e)) (dataStore_data (fst (store_append rt pt A e)))
           = slice_elems A (dataStore_data pt) @ [e]"
  using assms
  by (auto simp: wf_store_def store_append_def go_append_def slice_elems_def Let_def
      take_Suc_update split: prod.splits)










section \<open>processRequest: the captured event and the handlers\<close>



lemma processRequest_capture_props:
  assumes "wf_store pt A"
  shows "fst (processRequest_capture rt pt A h r now now_decay)
           = fst (newTrackingData rt (config pt) r now now_decay h)"
    and "slice_elems (fst (snd (snd (processRequest_capture rt pt A h r now now_decay))))
            (dataStore_data (fst (snd (processRequest_capture rt pt A h r now now_decay))))
           = slice_elems A (dataStore_data pt) @ [fst (processRequest_capture rt pt A h r now now_decay)]"
    and "handlers (fst (snd (processRequest_capture rt pt A h r now now_decay))) = handlers pt"
  using store_append_elems [OF assms, of rt "fst (newTrackingData rt (config pt) r now now_decay h)"]
  by (simp_all add: processRequest_capture_def split_def Let_def store_append_def)

lemma processRequest_store:
  "fst (processRequest rt pt A h r cookie now now_decay)
     = fst (snd (processRequest_capture rt pt A h r now now_decay))"
  "fst (snd (processRequest rt pt A h r cookie now now_decay))
     = fst (snd (snd (processRequest_capture rt pt A h r now now_decay)))"
  by (simp_all add: processRequest_def split_def Let_def)

lemma processRequest_objs:
  "snd (snd (processRequest rt pt A h r cookie now now_decay))
     = snd (run_handlers (handlers pt)
              (fst (processRequest_capture rt pt A h r now now_decay))
              (snd (snd (snd (processRequest_capture rt pt A h r now now_decay)))))"
  by (simp add: processRequest_def split_def Let_def processRequest_capture_def store_append_def)

lemma run_handlers_assign:
  "(\<forall>hdl \<in> set hs. \<exists>f. hdl = assign f) \<Longrightarrow> snd (run_handlers hs td h) = h"
proof (induction hs arbitrary: td)
  case Nil
  then show ?case by (simp add: run_handlers_def)
next
  case (Cons a hs)
  then obtain f where a: "a = assign f" by auto
  have "run_handlers (a # hs) td h = run_handlers hs (f td) h"
    by (simp add: run_handlers_def a assign_def)
  with Cons show ?case by simp
qed



text \<open>
  Claim C7, as amended.  The store receives a copy of the fields of the event and every
  handler a pointer to the event itself.  After the handlers have run, whatever they are,
  the records of a well-formed store are the ones that were there after the append, every
  field and every reference; and when the handlers only assign fields of the event they
  receive, the values of all stored events are unchanged as well.  The maps and the
  language array are shared between the event a handler receives and the stored record.
\<close>

theorem processRequest_handlers:
  assumes "wf_store pt A"
  shows "(let (td, pt1, A1, h1) = processRequest_capture rt pt A h r now now_decay;
              (pt2, A2, h2) = processRequest rt pt A h r cookie now now_decay
          in slice_elems A1 (dataStore_data pt1) = slice_elems A (dataStore_data pt) @ [td]
           \<and> slice_elems A2 (dataStore_data pt2) = slice_elems A1 (dataStore_data pt1)
           \<and> ((\<forall>hdl \<in> set (handlers pt). \<exists>f. hdl = assign f) \<longrightarrow>
                 map (event_value h2) (slice_elems A2 (dataStore_data pt2))
                   = map (event_value h1) (slice_elems A1 (dataStore_data pt1))))"
  using processRequest_capture_props(2) [OF assms, of rt h r now now_decay]
        run_handlers_assign [of "handlers pt"]
  by (simp add: split_def Let_def processRequest_store processRequest_objs)

lemma newTrackingData_Path:
  "td_Path (fst (newTrackingData rt cfg r now now_decay h)) = r_URL_Path r"
  by (simp add: newTrackingData_def Let_def zeroTrackingData_def split: prod.splits)

lemma newTrackingData_Query:
  "td_Query (fst (newTrackingData rt cfg r now now_decay h)) = Some (o_next h + 1)"
  by (simp add: newTrackingData_def Let_def zeroTrackingData_def extractCookies_def
      extractQueryParams_def new_map_def new_strs_def split: prod.splits)

lemma newTrackingData_Query_map:
  "o_maps (snd (newTrackingData rt cfg r now now_decay h)) (o_next h + 1)
     = (\<lambda>key. case r_URL_Query r key of None \<Rightarrow> None | Some [] \<Rightarrow> None | Some (v # vs) \<Rightarrow> Some v)"
  by (simp add: newTrackingData_def Let_def extractCookies_def
      extractQueryParams_def new_map_def new_strs_def split: prod.splits)

lemma processRequest_capture_objs:
  "snd (snd (snd (processRequest_capture rt pt A h r now now_decay)))
     = snd (newTrackingData rt (config pt) r now now_decay h)"
  by (simp add: processRequest_capture_def split_def Let_def store_append_def)

theorem processRequest_handlers_witness:
  "wf_store (Use (fst NewPixelTracker) rename_path) (snd NewPixelTracker)
   \<and> handlers (Use (fst NewPixelTracker) rename_path) = [rename_path]
   \<and> (let (td, pt1, A1, h1) =
             processRequest_capture runtime0 (Use (fst NewPixelTracker) rename_path)
               (snd NewPixelTracker) objs0 request0 1700000000000000000 1700000000000000001;
           (pt2, A2, h2) =
             processRequest runtime0 (Use (fst NewPixelTracker) rename_path)
               (snd NewPixelTracker) objs0 request0 None 1700000000000000000 1700000000000000001
       in slice_elems A2 (dataStore_data pt2) = [td]
        \<and> map td_Path (slice_elems A2 (dataStore_data pt2)) = [''/pixel.gif'']
        \<and> map (event_value h2) (slice_elems A2 (dataStore_data pt2)) = [event_value h1 td])"
proof -
  let ?pt = "Use (fst NewPixelTracker) rename_path"
  have wf: "wf_store ?pt (snd NewPixelTracker)"
    by (simp add: wf_store_def NewPixelTracker_def Use_def)
  have hs: "\<forall>hdl \<in> set (handlers ?pt). \<exists>f. hdl = assign f"
    by (auto simp: NewPixelTracker_def Use_def rename_path_def)
  have empty: "slice_elems (snd NewPixelTracker) (dataStore_data ?pt) = []"
    by (simp add: slice_elems_def NewPixelTracker_def Use_def)
  have path: "td_Path (fst (processRequest_capture runtime0 ?pt (snd NewPixelTracker) objs0 request0
                 1700000000000000000 1700000000000000001)) = ''/pixel.gif''"
    by (simp add: processRequest_capture_props(1) [OF wf] newTrackingData_Path request0_def)
  let ?c = "processRequest_capture runtime0 ?pt (snd NewPixelTracker) objs0 request0
              1700000000000000000 1700000000000000001"
  let ?p = "processRequest runtime0 ?pt (snd NewPixelTracker) objs0 request0 None
              1700000000000000000 1700000000000000001"
  have T: "slice_elems (fst (snd (snd ?c))) (dataStore_data (fst (snd ?c)))
             = slice_elems (snd NewPixelTracker) (dataStore_data ?pt) @ [fst ?c]
           \<and> slice_elems (fst (snd ?p)) (dataStore_data (fst ?p))
             = slice_elems (fst (snd (snd ?c))) (dataStore_data (fst (snd ?c)))
           \<and> ((\<forall>hdl \<in> set (handlers ?pt). \<exists>f. hdl = assign f) \<longrightarrow>
                 map (event_value (snd (snd ?p))) (slice_elems (fst (snd ?p)) (dataStore_data (fst ?p)))
                   = map (event_value (snd (snd (snd ?c))))
                       (slice_elems (fst (snd (snd ?c))) (dataStore_data (fst (snd ?c)))))"
    using processRequest_handlers [OF wf, of runtime0 objs0 request0 1700000000000000000
                                     1700000000000000001 None]
    unfolding split_def Let_def by blast
  have a1: "slice_elems (fst (snd (snd ?c))) (dataStore_data (fst (snd ?c))) = [fst ?c]"
    using T empty by simp
  have a2: "slice_elems (fst (snd ?p)) (dataStore_data (fst ?p)) = [fst ?c]"
    using T a1 by simp
  have a3: "map (event_value (snd (snd ?p))) [fst ?c] = map (event_value (snd (snd (snd ?c)))) [fst ?c]"
    using T hs a1 a2 by simp
  have a4: "map td_Path [fst ?c] = [''/pixel.gif'']"
    using path by simp
  have hl: "handlers ?pt = [rename_path]"
    by (simp add: NewPixelTracker_def Use_def)
  from wf hl a1 a2 a3 a4 show ?thesis
    by (simp add: split_def Let_def)
qed

lemma run_handlers_single: "run_handlers [handler] td h = handler td h"
  by (simp add: run_handlers_def)

lemma put_query_Some:
  "td_Query td = Some a \<Longrightarrow>
   put_query k v td h = (td, h\<lparr>o_maps := (o_maps h)(a := (o_maps h a)(k \<mapsto> v))\<rparr>)"
  by (simp add: put_query_def)

text \<open>
  The claim as stated fails for a handler that stores a key in the \<open>Query\<close> map of the
  event it receives: the stored record refers to the same map, and its value changes.
\<close>

theorem handler_put_query_counterexample:
  "(let pt = Use (fst NewPixelTracker) (put_query ''k'' ''v'');
        (td, pt1, A1, h1) =
          processRequest_capture runtime0 pt (snd NewPixelTracker) objs0 request0
            1700000000000000000 1700000000000000001;
        (pt2, A2, h2) =
          processRequest runtime0 pt (snd NewPixelTracker) objs0 request0 None
            1700000000000000000 1700000000000000001
    in slice_elems A1 (dataStore_data pt1) = [td]
     \<and> slice_elems A2 (dataStore_data pt2) = [td]
     \<and> map_option (\<lambda>m. m ''k'') (ev_Query (event_value h1 td)) = Some None
     \<and> map_option (\<lambda>m. m ''k'') (ev_Query (event_value h2 td)) = Some (Some ''v'')
     \<and> event_value h2 td \<noteq> event_value h1 td)"
proof -
  let ?pt = "Use (fst NewPixelTracker) (put_query ''k'' ''v'')"
  let ?c = "processRequest_capture runtime0 ?pt (snd NewPixelTracker) objs0 request0
              1700000000000000000 1700000000000000001"
  let ?p = "processRequest runtime0 ?pt (snd NewPixelTracker) objs0 request0 None
              1700000000000000000 1700000000000000001"
  let ?td = "fst ?c" and ?h1 = "snd (snd (snd ?c))" and ?h2 = "snd (snd ?p)"
  have wf: "wf_store ?pt (snd NewPixelTracker)"
    by (simp add: wf_store_def NewPixelTracker_def Use_def)
  have empty: "slice_elems (snd NewPixelTracker) (dataStore_data ?pt) = []"
    by (simp add: slice_elems_def NewPixelTracker_def Use_def)
  have s1: "slice_elems (fst (snd (snd ?c))) (dataStore_data (fst (snd ?c))) = [?td]"
    using processRequest_capture_props(2) [OF wf, of runtime0 objs0 request0
            1700000000000000000 1700000000000000001] empty by simp
  have s2: "slice_elems (fst (snd ?p)) (dataStore_data (fst ?p)) = [?td]"
    using s1 by (simp add: processRequest_store)
  have q: "td_Query ?td = Some 2"
    by (simp add: processRequest_capture_props(1) [OF wf] newTrackingData_Query objs0_def)
  have m1: "o_maps ?h1 2 ''k'' = None"
    using newTrackingData_Query_map [of runtime0 "config ?pt" request0 1700000000000000000
                                       1700000000000000001 objs0]
    by (simp add: processRequest_capture_objs objs0_def request0_def numeral_2_eq_2)
  have hd: "handlers ?pt = [put_query ''k'' ''v'']"
    by (simp add: Use_def NewPixelTracker_def)
  have "?h2 = snd (run_handlers [put_query ''k'' ''v''] ?td ?h1)"
    by (simp only: processRequest_objs hd)
  also have "\<dots> = snd (put_query ''k'' ''v'' ?td ?h1)"
    by (simp only: run_handlers_single)
  also have "\<dots> = ?h1\<lparr>o_maps := (o_maps ?h1)(2 := (o_maps ?h1 2)(''k'' \<mapsto> ''v''))\<rparr>"
    using q by (simp only: put_query_Some snd_conv)
  finally have h2: "?h2 = ?h1\<lparr>o_maps := (o_maps ?h1)(2 := (o_maps ?h1 2)(''k'' \<mapsto> ''v''))\<rparr>" .
  have v1: "map_option (\<lambda>m. m ''k'') (ev_Query (event_value ?h1 ?td)) = Some None"
    using q m1 by (simp add: event_value_def)
  have v2: "map_option (\<lambda>m. m ''k'') (ev_Query (event_value ?h2 ?td)) = Some (Some ''v'')"
    using q by (simp add: event_value_def h2)
  have ne: "event_value ?h2 ?td \<noteq> event_value ?h1 ?td"
    using v1 v2 by auto
  from s1 s2 v1 v2 ne show ?thesis
    by (simp add: split_def Let_def)
qed

end
